theory Spec2Isabelle
  imports Complex_Main "HOL-Library.AList"
begin

section \<open>Data model of backend/main.py\<close>

text \<open>
  The request bodies are pydantic models; each becomes a record with the fields and the
  optionality of the class. Several classes share field names (\<open>client_id\<close>,
  \<open>interrupt\<close>, \<open>is_muted\<close>, ...); a field of a request is always written with
  its record name in front (\<open>PlayRequest.interrupt r\<close>).
\<close>

record StatusReport =
  client_id :: string
  current_profile :: "string option"
  current_scene :: "string option"
  queue_size :: int
  is_looping :: bool

record StatusUpdate =
  client_id :: "string option"
  is_muted :: "bool option"
  is_sync_enabled :: "bool option"

record CommandInput =
  profile :: "string option"
  client_id :: "string option"

record PlayRequest =
  scene :: string
  loop :: "bool option"
  audio_url :: "string option"
  msg :: "string option"
  interrupt :: "bool option"
  client_id :: "string option"

record PlayScenesRequest =
  scenes :: "string list"
  interrupt :: "bool option"
  client_id :: "string option"

text \<open>
  The payload of a command is a \<open>Dict[str, Any]\<close>; the handlers only ever store
  strings, booleans and \<open>None\<close> in it, under literal keys, in a fixed order.
\<close>

datatype jval = JNull | JBool bool | JStr string

definition json_str :: "string option \<Rightarrow> jval" where
  "json_str x = (case x of None \<Rightarrow> JNull | Some s \<Rightarrow> JStr s)"

definition json_bool :: "bool option \<Rightarrow> jval" where
  "json_bool x = (case x of None \<Rightarrow> JNull | Some b \<Rightarrow> JBool b)"

record Command =
  payload :: "(string \<times> jval) list"
  interrupt :: bool

text \<open>The dictionary \<open>ClientSession.state\<close>, with its seven fixed keys.\<close>

record session_state =
  current_profile :: "string option"
  current_scene :: "string option"
  queue_size :: int
  is_looping :: bool
  last_report_ts :: int
  is_muted :: bool
  is_sync_enabled :: bool

text \<open>
  \<open>queue\<close> is the deque, its head (the left end) first. \<open>last_seen\<close> is a reading of
  \<open>time.time()\<close>, a finite binary64 number and so a real number; every function that
  reads the clock takes the reading as its argument \<open>now\<close>.
\<close>

record ClientSession =
  queue :: "Command list"
  state :: session_state
  last_seen :: real

text \<open>
  The global \<open>sessions\<close> dictionary, as an association list in insertion order (the
  order \<open>sessions.items()\<close> and \<open>sessions.values()\<close> iterate in). A Python dictionary
  holds each key once: \<open>wf_sessions\<close>.
\<close>

type_synonym sessions = "(string \<times> ClientSession) list"

definition wf_sessions :: "sessions \<Rightarrow> bool" where
  "wf_sessions ss = distinct (map fst ss)"

text \<open>\<open>ClientSession.__init__\<close>.\<close>

definition ClientSession_init :: "real \<Rightarrow> ClientSession" where
  "ClientSession_init now =
     \<lparr>queue = [],
      state = \<lparr>current_profile = None, current_scene = None, queue_size = 0,
               is_looping = False, last_report_ts = 0, is_muted = False,
               is_sync_enabled = True\<rparr>,
      last_seen = now\<rparr>"

section \<open>Session store\<close>

text \<open>
  What the code can raise: \<open>HTTPException\<close> with its status code, pydantic's
  \<open>ValidationError\<close> from a model constructor inside a handler, and \<open>KeyError\<close>
  from \<open>del\<close> on a dictionary.
\<close>

datatype error = HTTPException nat | ValidationError | KeyError

text \<open>
  \<open>get_or_create_session\<close>: the session is inserted at the end of the dictionary when the
  id is new, and its \<open>last_seen\<close> is set in either case. The function returns the session
  object; the callers mutate it in place, which the model does through the id.
  (The constructor and the assignment read the clock one after the other; the second
  reading is the one that stays, and it is \<open>now\<close>.)
\<close>

definition get_or_create_session :: "real \<Rightarrow> string \<Rightarrow> sessions \<Rightarrow> ClientSession \<times> sessions" where
  "get_or_create_session now cid ss =
     (case map_of ss cid of
        None \<Rightarrow>
          (let sess = (ClientSession_init now)\<lparr>last_seen := now\<rparr>
           in (sess, AList.update cid sess ss))
      | Some sess0 \<Rightarrow>
          (let sess = sess0\<lparr>last_seen := now\<rparr>
           in (sess, AList.update cid sess ss)))"

text \<open>
  \<open>cleanup_sessions\<close>: the ids to remove are collected first, then deleted one by one
  with \<open>del sessions[cid]\<close>, which raises \<open>KeyError\<close> for an id that is not there.

  The difference \<open>now - sess.last_seen\<close> is a subtraction of two binary64 numbers: the
  machine rounds the exact difference to the nearest binary64 number, so it need not be
  the difference of the reals. The machine's subtraction is the argument \<open>float_sub\<close>
  of the model, and the model assumes nothing of it. The comparison with the timeout (a
  finite number) is exact in Python, as it is on the reals.
\<close>

definition to_remove :: "(real \<Rightarrow> real \<Rightarrow> real) \<Rightarrow> real \<Rightarrow> real \<Rightarrow> sessions \<Rightarrow> string list" where
  "to_remove float_sub timeout_seconds now ss =
     map fst (filter (\<lambda>(cid, sess). float_sub now (last_seen sess) > timeout_seconds) ss)"

fun del_each :: "string list \<Rightarrow> sessions \<Rightarrow> error + sessions" where
  "del_each [] ss = Inr ss"
| "del_each (cid # cids) ss =
     (if map_of ss cid = None then Inl KeyError else del_each cids (AList.delete cid ss))"

definition cleanup_sessions ::
  "(real \<Rightarrow> real \<Rightarrow> real) \<Rightarrow> real \<Rightarrow> real \<Rightarrow> sessions \<Rightarrow> error + sessions" where
  "cleanup_sessions float_sub timeout_seconds now ss =
     del_each (to_remove float_sub timeout_seconds now ss) ss"

section \<open>Targeting and queue mutation\<close>

text \<open>
  Python truthiness of an \<open>Optional[str]\<close> and of an \<open>Optional[bool]\<close>: \<open>None\<close>, the
  empty string and \<open>False\<close> are false.
\<close>

definition truthy_str :: "string option \<Rightarrow> bool" where
  "truthy_str x = (case x of None \<Rightarrow> False | Some s \<Rightarrow> s \<noteq> [])"

definition truthy_bool :: "bool option \<Rightarrow> bool" where
  "truthy_bool x = (case x of None \<Rightarrow> False | Some b \<Rightarrow> b)"

text \<open>
  The block that computes \<open>target_sessions\<close>, repeated word for word in
  \<open>update_status\<close>, \<open>apply_profile\<close>, \<open>play_scene\<close> and \<open>play_scenes\<close>. The Python list
  holds the session objects; the model holds their ids, in the same order.
\<close>

definition target_sessions :: "string option \<Rightarrow> sessions \<Rightarrow> string list" where
  "target_sessions cid_opt ss =
     (case cid_opt of
        None \<Rightarrow> map fst ss
      | Some cid \<Rightarrow>
          if truthy_str (Some cid)
          then (if map_of ss cid \<noteq> None then [cid] else [])
          else map fst ss)"

text \<open>\<open>for sess in target_sessions: ...\<close> with a body that mutates \<open>sess\<close>.\<close>

definition for_each_session :: "(ClientSession \<Rightarrow> ClientSession) \<Rightarrow> string list \<Rightarrow> sessions \<Rightarrow> sessions" where
  "for_each_session body targets ss = fold (\<lambda>cid. AList.map_entry cid body) targets ss"

definition queue_append :: "Command \<Rightarrow> ClientSession \<Rightarrow> ClientSession" where
  "queue_append c sess = sess\<lparr>queue := queue sess @ [c]\<rparr>"

definition queue_clear :: "ClientSession \<Rightarrow> ClientSession" where
  "queue_clear sess = sess\<lparr>queue := []\<rparr>"

section \<open>Endpoints\<close>

text \<open>
  An endpoint returns an error or a response, and the session store as the call leaves
  it: a handler that raises after it has mutated the store leaves the mutation behind.
\<close>

datatype response =
    Status_targets string nat
  | Status_queued_targets string "string list" nat
  | Status_only string

text \<open>\<open>POST /api/status\<close>.\<close>

definition update_status_body :: "StatusUpdate \<Rightarrow> ClientSession \<Rightarrow> ClientSession" where
  "update_status_body upd sess =
     (let st1 = (case StatusUpdate.is_muted upd of
                   None \<Rightarrow> state sess
                 | Some b \<Rightarrow> (state sess)\<lparr>is_muted := b\<rparr>);
          st2 = (case StatusUpdate.is_sync_enabled upd of
                   None \<Rightarrow> st1
                 | Some b \<Rightarrow> st1\<lparr>is_sync_enabled := b\<rparr>)
      in sess\<lparr>state := st2\<rparr>)"

definition update_status :: "StatusUpdate \<Rightarrow> sessions \<Rightarrow> (error + response) \<times> sessions" where
  "update_status upd ss =
     (let targets = target_sessions (StatusUpdate.client_id upd) ss
      in (Inr (Status_targets ''updated'' (length targets)),
          for_each_session (update_status_body upd) targets ss))"

text \<open>\<open>POST /api/applyProfile\<close>.\<close>

definition internal_command :: "CommandInput \<Rightarrow> Command" where
  "internal_command command_input =
     \<lparr>payload = [(''profile'', json_str (CommandInput.profile command_input))],
      interrupt = False\<rparr>"

definition apply_profile :: "CommandInput \<Rightarrow> sessions \<Rightarrow> (error + response) \<times> sessions" where
  "apply_profile command_input ss =
     (let targets = target_sessions (CommandInput.client_id command_input) ss
      in (Inr (Status_targets ''queued'' (length targets)),
          for_each_session (queue_append (internal_command command_input)) targets ss))"

text \<open>\<open>GET /api/queue\<close>: the command at the head of the queue, or \<open>None\<close>.\<close>

definition get_next_command :: "real \<Rightarrow> string \<Rightarrow> sessions \<Rightarrow> Command option \<times> sessions" where
  "get_next_command now cid ss =
     (case get_or_create_session now cid ss of
        (session, ss1) \<Rightarrow>
          (case queue session of
             [] \<Rightarrow> (None, ss1)
           | c # rest \<Rightarrow> (Some c, AList.map_entry cid (\<lambda>s. s\<lparr>queue := rest\<rparr>) ss1)))"

text \<open>\<open>POST /api/report\<close>.\<close>

definition report_status_body :: "StatusReport \<Rightarrow> ClientSession \<Rightarrow> ClientSession" where
  "report_status_body report sess =
     sess\<lparr>state := (state sess)
       \<lparr>current_profile := StatusReport.current_profile report,
        current_scene := StatusReport.current_scene report,
        queue_size := StatusReport.queue_size report,
        is_looping := StatusReport.is_looping report\<rparr>\<rparr>"

definition report_status :: "real \<Rightarrow> StatusReport \<Rightarrow> sessions \<Rightarrow> (error + response) \<times> sessions" where
  "report_status now report ss =
     (case get_or_create_session now (StatusReport.client_id report) ss of
        (session, ss1) \<Rightarrow>
          (Inr (Status_only ''ok''),
           AList.map_entry (StatusReport.client_id report) (report_status_body report) ss1))"

text \<open>
  The scene definitions are read from two files on every call. What the reads can give:
  settings.json unreadable (500); scenes.json absent (no scenes); scenes.json unreadable
  (500); or the names that scenes.json defines (the keys of its JSON object).
\<close>

datatype scene_files =
    Settings_unreadable
  | Scenes_absent
  | Scenes_unreadable
  | Scenes_loaded "string list"

definition load_scenes :: "scene_files \<Rightarrow> error + string list" where
  "load_scenes fs =
     (case fs of
        Settings_unreadable \<Rightarrow> Inl (HTTPException 500)
      | Scenes_absent \<Rightarrow> Inr []
      | Scenes_unreadable \<Rightarrow> Inl (HTTPException 500)
      | Scenes_loaded names \<Rightarrow> Inr names)"

text \<open>
  \<open>POST /api/playScene\<close>. The order is the handler's: targets, interrupt, files, the
  check of the scene name, the command, the appends. \<open>Command(...)\<close> rejects
  \<open>interrupt=None\<close>, its field being a plain \<open>bool\<close>.
\<close>

definition play_scene_command :: "PlayRequest \<Rightarrow> bool \<Rightarrow> Command" where
  "play_scene_command request b =
     \<lparr>payload = [(''scene'', JStr (scene request)),
                 (''loop'', json_bool (loop request)),
                 (''audio_url'', json_str (audio_url request)),
                 (''msg'', json_str (msg request))],
      interrupt = b\<rparr>"

definition play_scene :: "PlayRequest \<Rightarrow> scene_files \<Rightarrow> sessions \<Rightarrow> (error + response) \<times> sessions" where
  "play_scene request fs ss =
     (let targets = target_sessions (PlayRequest.client_id request) ss;
          ss1 = (if truthy_bool (PlayRequest.interrupt request)
                 then for_each_session queue_clear targets ss else ss)
      in case load_scenes fs of
           Inl e \<Rightarrow> (Inl e, ss1)
         | Inr defined \<Rightarrow>
             if scene request \<notin> set defined then (Inl (HTTPException 404), ss1)
             else (case PlayRequest.interrupt request of
                     None \<Rightarrow> (Inl ValidationError, ss1)
                   | Some b \<Rightarrow>
                       (Inr (Status_targets ''queued'' (length targets)),
                        for_each_session (queue_append (play_scene_command request b)) targets ss1)))"

text \<open>
  \<open>POST /api/playScenes\<close>. The loop over \<open>request.scenes\<close> carries the store, the list
  \<open>queued_scenes\<close> and the flag \<open>first_command\<close>.
\<close>

definition play_scenes_command :: "string \<Rightarrow> bool \<Rightarrow> Command" where
  "play_scenes_command scene_name should_interrupt =
     \<lparr>payload = [(''scene'', JStr scene_name),
                 (''loop'', JBool False),
                 (''audio_url'', JNull),
                 (''msg'', JNull)],
      interrupt = should_interrupt\<rparr>"

fun play_scenes_loop ::
  "bool \<Rightarrow> string list \<Rightarrow> string list \<Rightarrow> string list \<Rightarrow> sessions \<times> string list \<times> bool
    \<Rightarrow> sessions \<times> string list \<times> bool" where
  "play_scenes_loop intr available targets [] acc = acc"
| "play_scenes_loop intr available targets (scene_name # names) (ss, queued_scenes, first_command) =
     (if scene_name \<in> set available
      then (let should_interrupt = (first_command \<and> intr);
                command = play_scenes_command scene_name should_interrupt
            in play_scenes_loop intr available targets names
                 (for_each_session (queue_append command) targets ss,
                  queued_scenes @ [scene_name], False))
      else play_scenes_loop intr available targets names (ss, queued_scenes, first_command))"

definition play_scenes :: "PlayScenesRequest \<Rightarrow> scene_files \<Rightarrow> sessions \<Rightarrow> (error + response) \<times> sessions" where
  "play_scenes request fs ss =
     (let targets = target_sessions (PlayScenesRequest.client_id request) ss;
          ss1 = (if truthy_bool (PlayScenesRequest.interrupt request)
                 then for_each_session queue_clear targets ss else ss)
      in case load_scenes fs of
           Inl e \<Rightarrow> (Inl e, ss1)
         | Inr available_scenes \<Rightarrow>
             (case play_scenes_loop (truthy_bool (PlayScenesRequest.interrupt request))
                     available_scenes targets (scenes request) (ss1, [], True) of
                (ss2, queued_scenes, first_command) \<Rightarrow>
                  (Inr (Status_queued_targets ''ok'' queued_scenes (length targets)), ss2)))"

section \<open>Batches, polling sequences\<close>

text \<open>
  The commands that one \<open>play_scenes\<close> call appends to a queue, for the accepted names
  in order: the first command carries the flag \<open>b\<close>, the later ones carry false.
\<close>

definition batch_commands :: "bool \<Rightarrow> string list \<Rightarrow> Command list" where
  "batch_commands b accepted =
     (case accepted of
        [] \<Rightarrow> []
      | n # ns \<Rightarrow> play_scenes_command n b # map (\<lambda>m. play_scenes_command m False) ns)"

text \<open>
  A client that polls \<open>GET /api/queue\<close> once at each of the clock readings \<open>ts\<close>, and
  what a handler's loop \<open>for sess in target_sessions: sess.queue.append(c)\<close> does to the
  queue of the one session \<open>cid\<close>, for the commands \<open>cs\<close> in turn.
\<close>

fun polls :: "string \<Rightarrow> real list \<Rightarrow> sessions \<Rightarrow> Command option list \<times> sessions" where
  "polls cid [] ss = ([], ss)"
| "polls cid (t # ts) ss =
     (case get_next_command t cid ss of
        (r, ss1) \<Rightarrow> (case polls cid ts ss1 of (rs, ss2) \<Rightarrow> (r # rs, ss2)))"

definition enqueue_all :: "string \<Rightarrow> Command list \<Rightarrow> sessions \<Rightarrow> sessions" where
  "enqueue_all cid cs ss = fold (\<lambda>c. for_each_session (queue_append c) [cid]) cs ss"

section \<open>Properties of the store operations\<close>

text \<open>
  On a well-formed store, mutating the sessions of a duplicate-free list of ids is a map
  over the store: the listed sessions change, the others and the order of the dictionary
  stay.
\<close>

lemma map_entry_as_map:
  "distinct (map fst ss) \<Longrightarrow>
   AList.map_entry cid f ss = map (\<lambda>(k, s). (k, if k = cid then f s else s)) ss"
proof (induction ss)
  case Nil
  then show ?case by simp
next
  case (Cons p ps)
  obtain k s where p: "p = (k, s)" by (cases p)
  show ?case
  proof (cases "k = cid")
    case True
    with Cons.prems p have "cid \<notin> fst ` set ps" by simp
    then have "map (\<lambda>(k, s). (k, if k = cid then f s else s)) ps = ps"
      by (intro map_idI) (auto simp: image_iff)
    with True p show ?thesis by simp
  next
    case False
    with Cons p show ?thesis by simp
  qed
qed

lemma for_each_session_keys:
  "map fst (for_each_session f targets ss) = map fst ss"
proof (induction targets arbitrary: ss)
  case Nil
  then show ?case by (simp add: for_each_session_def)
next
  case (Cons t ts)
  have "map fst (AList.map_entry t f ss) = map fst ss"
    by (induction ss) auto
  with Cons show ?case by (simp add: for_each_session_def)
qed

lemma for_each_session_as_map:
  "wf_sessions ss \<Longrightarrow> distinct targets \<Longrightarrow>
   for_each_session f targets ss = map (\<lambda>(k, s). (k, if k \<in> set targets then f s else s)) ss"
proof (induction targets arbitrary: ss)
  case Nil
  then show ?case by (simp add: for_each_session_def)
next
  case (Cons t ts)
  let ?ss1 = "AList.map_entry t f ss"
  have keys: "map fst ?ss1 = map fst ss"
    by (induction ss) auto
  then have wf1: "wf_sessions ?ss1"
    using Cons.prems(1) by (simp add: wf_sessions_def)
  have "for_each_session f (t # ts) ss = for_each_session f ts ?ss1"
    by (simp add: for_each_session_def)
  also have "\<dots> = map (\<lambda>(k, s). (k, if k \<in> set ts then f s else s)) ?ss1"
    using Cons.IH [OF wf1] Cons.prems(2) by simp
  also have "?ss1 = map (\<lambda>(k, s). (k, if k = t then f s else s)) ss"
    using Cons.prems(1) by (simp add: wf_sessions_def map_entry_as_map)
  also have "map (\<lambda>(k, s). (k, if k \<in> set ts then f s else s)) \<dots>
      = map (\<lambda>(k, s). (k, if k \<in> set (t # ts) then f s else s)) ss"
    using Cons.prems(2) by (auto simp: case_prod_beta)
  finally show ?case .
qed

lemma distinct_target_sessions:
  "wf_sessions ss \<Longrightarrow> distinct (target_sessions c ss)"
  by (auto simp: target_sessions_def wf_sessions_def split: option.splits)

lemma target_sessions_unknown:
  "cid \<noteq> [] \<Longrightarrow> map_of ss cid = None \<Longrightarrow> target_sessions (Some cid) ss = []"
  by (simp add: target_sessions_def truthy_str_def)

text \<open>The store stays well formed: it starts empty, and the operations keep the ids distinct.\<close>

lemma wf_sessions_empty: "wf_sessions []"
  by (simp add: wf_sessions_def)

lemma wf_get_or_create_session:
  "wf_sessions ss \<Longrightarrow> wf_sessions (snd (get_or_create_session now cid ss))"
  by (simp add: wf_sessions_def get_or_create_session_def Let_def distinct_update
      split: option.splits)

lemma wf_for_each_session:
  "wf_sessions ss \<Longrightarrow> wf_sessions (for_each_session f targets ss)"
  by (simp add: wf_sessions_def for_each_session_keys)

lemma target_sessions_empty_id:
  "target_sessions (Some []) ss = map fst ss"
  by (simp add: target_sessions_def truthy_str_def)

lemma for_each_session_all:
  assumes "wf_sessions ss"
  shows "for_each_session f (map fst ss) ss = map (\<lambda>(cid, sess). (cid, f sess)) ss"
proof -
  have "for_each_session f (map fst ss) ss =
          map (\<lambda>(k, s). (k, if k \<in> set (map fst ss) then f s else s)) ss"
    using assms by (intro for_each_session_as_map) (simp_all add: wf_sessions_def)
  also have "\<dots> = map (\<lambda>(cid, sess). (cid, f sess)) ss"
    by (rule map_cong) force+
  finally show ?thesis .
qed

lemma del_each_as_filter:
  "distinct cids \<Longrightarrow> set cids \<subseteq> fst ` set ss \<Longrightarrow>
   del_each cids ss = Inr (filter (\<lambda>(k, s). k \<notin> set cids) ss)"
proof (induction cids arbitrary: ss)
  case Nil
  then show ?case by simp
next
  case (Cons c cids)
  from Cons.prems(2) have present: "map_of ss c \<noteq> None"
    by (simp add: map_of_eq_None_iff)
  have "set cids \<subseteq> fst ` set (AList.delete c ss)"
  proof
    fix x assume x: "x \<in> set cids"
    with Cons.prems(2) obtain v where "(x, v) \<in> set ss" by force
    moreover from x Cons.prems(1) have "x \<noteq> c" by auto
    ultimately have "(x, v) \<in> set (AList.delete c ss)"
      by (simp add: AList.delete_eq)
    then show "x \<in> fst ` set (AList.delete c ss)" by force
  qed
  then have "del_each cids (AList.delete c ss) =
      Inr (filter (\<lambda>(k, s). k \<notin> set cids) (AList.delete c ss))"
    using Cons.prems(1) by (intro Cons.IH) simp
  also have "filter (\<lambda>(k, s). k \<notin> set cids) (AList.delete c ss) =
      filter (\<lambda>(k, s). k \<notin> set (c # cids)) ss"
    by (auto simp: AList.delete_eq case_prod_beta intro: filter_cong)
  finally show ?case
    using present by simp
qed

lemma to_remove_listed:
  "wf_sessions ss \<Longrightarrow>
   distinct (to_remove float_sub t now ss) \<and> set (to_remove float_sub t now ss) \<subseteq> fst ` set ss"
  by (auto simp: to_remove_def wf_sessions_def distinct_map_filter)

lemma wf_cleanup_sessions:
  "wf_sessions ss \<Longrightarrow> cleanup_sessions float_sub timeout_seconds now ss = Inr ss' \<Longrightarrow>
   wf_sessions ss'"
  using to_remove_listed [of ss float_sub timeout_seconds now]
  by (auto simp: cleanup_sessions_def del_each_as_filter wf_sessions_def distinct_map_filter)

lemma to_remove_iff:
  assumes "wf_sessions ss" and "(k, s) \<in> set ss"
  shows "k \<in> set (to_remove float_sub t now ss) \<longleftrightarrow> float_sub now (last_seen s) > t"
proof
  assume "k \<in> set (to_remove float_sub t now ss)"
  then obtain s' where s': "(k, s') \<in> set ss" "float_sub now (last_seen s') > t"
    by (auto simp: to_remove_def)
  from assms s'(1) have "s' = s"
    unfolding wf_sessions_def by (meson eq_key_imp_eq_value)
  with s'(2) show "float_sub now (last_seen s) > t" by simp
next
  assume "float_sub now (last_seen s) > t"
  with assms(2) show "k \<in> set (to_remove float_sub t now ss)"
    by (force simp: to_remove_def)
qed

lemma cleanup_sessions_as_filter:
  assumes "wf_sessions ss"
  shows "cleanup_sessions float_sub timeout_seconds now ss =
           Inr (filter (\<lambda>(cid, sess). \<not> float_sub now (last_seen sess) > timeout_seconds) ss)"
proof -
  from to_remove_listed [OF assms]
  have "cleanup_sessions float_sub timeout_seconds now ss =
          Inr (filter (\<lambda>(k, s). k \<notin> set (to_remove float_sub timeout_seconds now ss)) ss)"
    by (simp add: cleanup_sessions_def del_each_as_filter)
  also have "filter (\<lambda>(k, s). k \<notin> set (to_remove float_sub timeout_seconds now ss)) ss =
      filter (\<lambda>(cid, sess). \<not> float_sub now (last_seen sess) > timeout_seconds) ss"
    by (rule filter_cong) (auto simp: to_remove_iff [OF assms])
  finally show ?thesis .
qed

text \<open>
  Where the subtraction rounds, the rounded difference decides. A session seen at
  reading 1 is swept at reading \<open>2^53 + 2\<close> with timeout \<open>2^53\<close> only if the
  machine's difference exceeds \<open>2^53\<close>; binary64 rounds \<open>2^53 + 1\<close> to \<open>2^53\<close>, and
  the session stays.
\<close>

lemma cleanup_sessions_rounded_difference:
  assumes "float_sub (2 ^ 53 + 2) 1 = 2 ^ 53"
  shows "cleanup_sessions float_sub (2 ^ 53) (2 ^ 53 + 2) [(''a'', ClientSession_init 1)] =
           Inr [(''a'', ClientSession_init 1)]"
  using assms
  by (simp add: cleanup_sessions_as_filter wf_sessions_def ClientSession_init_def)

text \<open>The loop of \<open>play_scenes\<close>, in closed form.\<close>

lemma batch_commands_append:
  "batch_commands b (n # ns) = play_scenes_command n b # batch_commands False ns"
  by (cases ns) (simp_all add: batch_commands_def)

lemma play_scenes_loop_as_map:
  "wf_sessions ss \<Longrightarrow> distinct targets \<Longrightarrow>
   play_scenes_loop intr available targets names (ss, queued, first) =
     (map (\<lambda>(k, s). (k, if k \<in> set targets
                         then s\<lparr>queue := queue s @
                                batch_commands (first \<and> intr) (filter (\<lambda>n. n \<in> set available) names)\<rparr>
                         else s)) ss,
      queued @ filter (\<lambda>n. n \<in> set available) names,
      first \<and> filter (\<lambda>n. n \<in> set available) names = [])"
proof (induction names arbitrary: ss queued first)
  case Nil
  have "map (\<lambda>(k, s). (k, if k \<in> set targets
                         then s\<lparr>queue := queue s @
                                batch_commands (first \<and> intr) (filter (\<lambda>n. n \<in> set available) [])\<rparr>
                         else s)) ss = ss"
    by (intro map_idI) (auto simp: batch_commands_def)
  then show ?case by simp
next
  case (Cons n names)
  show ?case
  proof (cases "n \<in> set available")
    case False
    then have skip: "filter (\<lambda>n. n \<in> set available) (n # names) =
                     filter (\<lambda>n. n \<in> set available) names"
      by simp
    have "play_scenes_loop intr available targets (n # names) (ss, queued, first) =
            play_scenes_loop intr available targets names (ss, queued, first)"
      using False by simp
    then show ?thesis
      unfolding skip using Cons.IH [OF Cons.prems] by simp
  next
    case True
    let ?c = "play_scenes_command n (first \<and> intr)"
    let ?ss1 = "for_each_session (queue_append ?c) targets ss"
    have ss1: "?ss1 = map (\<lambda>(k, s). (k, if k \<in> set targets then queue_append ?c s else s)) ss"
      using Cons.prems by (rule for_each_session_as_map)
    have wf1: "wf_sessions ?ss1"
      using Cons.prems(1) by (simp add: wf_sessions_def for_each_session_keys)
    have "play_scenes_loop intr available targets (n # names) (ss, queued, first) =
            play_scenes_loop intr available targets names (?ss1, queued @ [n], False)"
      using True by (simp add: Let_def)
    also have "\<dots> =
       (map (\<lambda>(k, s). (k, if k \<in> set targets
                         then s\<lparr>queue := queue s @
                                batch_commands (False \<and> intr) (filter (\<lambda>n. n \<in> set available) names)\<rparr>
                         else s)) ?ss1,
        (queued @ [n]) @ filter (\<lambda>n. n \<in> set available) names,
        False \<and> filter (\<lambda>n. n \<in> set available) names = [])"
      using wf1 Cons.prems(2) by (rule Cons.IH)
    also have "map (\<lambda>(k, s). (k, if k \<in> set targets
                         then s\<lparr>queue := queue s @
                                batch_commands (False \<and> intr) (filter (\<lambda>n. n \<in> set available) names)\<rparr>
                         else s)) ?ss1 =
               map (\<lambda>(k, s). (k, if k \<in> set targets
                         then s\<lparr>queue := queue s @
                                batch_commands (first \<and> intr) (filter (\<lambda>n. n \<in> set available) (n # names))\<rparr>
                         else s)) ss"
      unfolding ss1 using True
      by (auto simp: queue_append_def batch_commands_append)
    finally show ?thesis using True by simp
  qed
qed

lemma play_scenes_loop_no_targets:
  "play_scenes_loop intr available [] names (ss, queued, first) =
     (ss, queued @ filter (\<lambda>n. n \<in> set available) names,
      first \<and> filter (\<lambda>n. n \<in> set available) names = [])"
  by (induction names arbitrary: queued first) (simp_all add: for_each_session_def)

text \<open>Looking a session up, and one poll.\<close>

lemma get_or_create_session_lookup:
  "get_or_create_session now cid ss = (sess, ss1) \<Longrightarrow>
   map_of ss1 = (map_of ss)(cid \<mapsto> sess) \<and>
   sess = (case map_of ss cid of None \<Rightarrow> ClientSession_init now | Some s \<Rightarrow> s)\<lparr>last_seen := now\<rparr>"
  by (auto simp: get_or_create_session_def Let_def update_conv split: option.splits)

lemma get_next_command_step:
  assumes "map_of ss cid = Some s" and "get_next_command t cid ss = (r, ss')"
  shows "r = (case queue s of [] \<Rightarrow> None | c # rest \<Rightarrow> Some c)
         \<and> (\<exists>s'. map_of ss' cid = Some s' \<and> queue s' = tl (queue s))"
proof -
  obtain sess ss1 where g: "get_or_create_session t cid ss = (sess, ss1)"
    by (cases "get_or_create_session t cid ss")
  from get_or_create_session_lookup [OF g] assms(1)
  have m1: "map_of ss1 cid = Some sess" and q: "queue sess = queue s"
    by simp_all
  show ?thesis
  proof (cases "queue s")
    case Nil
    with assms(2) g q m1 show ?thesis
      by (auto simp: get_next_command_def)
  next
    case (Cons c rest)
    with assms(2) g q have r: "r = Some c"
      and ss': "ss' = AList.map_entry cid (\<lambda>s. s\<lparr>queue := rest\<rparr>) ss1"
      by (auto simp: get_next_command_def)
    from ss' m1 have "map_of ss' cid = Some (sess\<lparr>queue := rest\<rparr>)"
      by (simp add: map_of_map_entry)
    with r Cons show ?thesis by simp
  qed
qed

lemma polls_results:
  "map_of ss cid = Some s \<Longrightarrow>
   fst (polls cid ts ss) =
     map Some (take (length ts) (queue s)) @ replicate (length ts - length (queue s)) None"
proof (induction ts arbitrary: ss s)
  case Nil
  then show ?case by simp
next
  case (Cons t ts)
  obtain r ss1 where g: "get_next_command t cid ss = (r, ss1)"
    by (cases "get_next_command t cid ss")
  from get_next_command_step [OF Cons.prems g]
  obtain s1 where r: "r = (case queue s of [] \<Rightarrow> None | c # rest \<Rightarrow> Some c)"
    and s1: "map_of ss1 cid = Some s1" "queue s1 = tl (queue s)"
    by blast
  have "fst (polls cid (t # ts) ss) = r # fst (polls cid ts ss1)"
    using g by (simp split: prod.splits)
  also have "fst (polls cid ts ss1) =
      map Some (take (length ts) (queue s1)) @ replicate (length ts - length (queue s1)) None"
    using s1(1) by (rule Cons.IH)
  finally show ?case
    using r s1(2) by (cases "queue s") (simp_all add: replicate_app_Cons_same)
qed

lemma enqueue_all_lookup:
  "map_of ss cid = Some s \<Longrightarrow>
   map_of (enqueue_all cid cs ss) cid = Some (s\<lparr>queue := queue s @ cs\<rparr>)"
proof (induction cs arbitrary: ss s)
  case Nil
  then show ?case by (simp add: enqueue_all_def)
next
  case (Cons c cs)
  let ?ss1 = "for_each_session (queue_append c) [cid] ss"
  have "map_of ?ss1 cid = Some (queue_append c s)"
    using Cons.prems by (simp add: for_each_session_def map_of_map_entry)
  from Cons.IH [OF this] show ?case
    by (simp add: enqueue_all_def queue_append_def)
qed

section \<open>Unknown scene in play-scene\<close>

text \<open>
  Claim C1. The claim: a \<open>play_scene\<close> call whose scene name is not defined returns 404
  and leaves the session store as it was. The handler clears the targeted queues before
  it checks the scene name. For the request \<open>{scene: "missing"}\<close> (interrupt defaults to
  true, no client id) against an absent scenes file, with one session whose queue holds
  one command: the call returns 404, and the command is gone from the queue.
\<close>

theorem play_scene_unknown_scene_clears_queue:
  "play_scene \<lparr>scene = ''missing'', loop = Some False, audio_url = None, msg = None,
               PlayRequest.interrupt = Some True, PlayRequest.client_id = None\<rparr>
     Scenes_absent
     [(''a'', \<lparr>queue = [\<lparr>payload = [(''profile'', JStr ''calm'')], interrupt = False\<rparr>],
              state = state (ClientSession_init 0), last_seen = 0\<rparr>)]
   = (Inl (HTTPException 404),
      [(''a'', \<lparr>queue = [], state = state (ClientSession_init 0), last_seen = 0\<rparr>)])"
  by (simp add: play_scene_def target_sessions_def truthy_bool_def for_each_session_def
      queue_clear_def load_scenes_def)

section \<open>First in, first out\<close>

text \<open>
  Claim C2. For a session with queue \<open>q\<close>, after the commands \<open>cs\<close> have been appended in
  order, a run of polls by that client returns the commands of \<open>q @ cs\<close> from the front,
  one per poll, each once and in that order; the polls after the last command return
  \<open>None\<close>. This holds for any number of polls, at any clock readings.
\<close>

theorem queue_is_fifo:
  assumes "map_of ss cid = Some s"
  shows "fst (polls cid ts (enqueue_all cid cs ss)) =
           map Some (take (length ts) (queue s @ cs))
           @ replicate (length ts - length (queue s @ cs)) None"
  using polls_results [OF enqueue_all_lookup [OF assms], of ts cs] by simp

theorem queue_is_fifo_witness:
  "map_of [(''a'', ClientSession_init 0)] ''a'' = Some (ClientSession_init 0)
   \<and> fst (polls ''a'' [1, 2, 3, 4]
        (enqueue_all ''a''
           [play_scenes_command ''one'' True, play_scenes_command ''two'' False,
            play_scenes_command ''three'' False]
           [(''a'', ClientSession_init 0)]))
     = [Some (play_scenes_command ''one'' True), Some (play_scenes_command ''two'' False),
        Some (play_scenes_command ''three'' False), None]"
  using queue_is_fifo [of "[(''a'', ClientSession_init 0)]" "''a''" "ClientSession_init 0"
      "[1, 2, 3, 4]"
      "[play_scenes_command ''one'' True, play_scenes_command ''two'' False,
        play_scenes_command ''three'' False]"]
  by (simp add: ClientSession_init_def)

section \<open>Scene sequence with interrupt\<close>

text \<open>
  Claim C3. A \<open>play_scenes\<close> call with \<open>interrupt=true\<close>, with readable scene definitions
  and at least one requested name defined, answers \<open>ok\<close> with the requested names that are
  defined, in request order, as its \<open>queued\<close> list. Each targeted queue then holds exactly
  the commands of this batch, one per accepted name in order; the first has interrupt
  true, every later one has interrupt false. Sessions that are not targeted are unchanged.
\<close>

theorem play_scenes_interrupt_first_only:
  assumes wf: "wf_sessions ss"
    and intr: "PlayScenesRequest.interrupt request = Some True"
    and files: "load_scenes fs = Inr available"
    and some: "\<exists>n \<in> set (scenes request). n \<in> set available"
  shows "play_scenes request fs ss =
           (Inr (Status_queued_targets ''ok'' (filter (\<lambda>n. n \<in> set available) (scenes request))
                   (length (target_sessions (PlayScenesRequest.client_id request) ss))),
            map (\<lambda>(cid, sess).
                   (cid, if cid \<in> set (target_sessions (PlayScenesRequest.client_id request) ss)
                         then sess\<lparr>queue :=
                                play_scenes_command (hd (filter (\<lambda>n. n \<in> set available) (scenes request))) True
                                # map (\<lambda>n. play_scenes_command n False)
                                    (tl (filter (\<lambda>n. n \<in> set available) (scenes request)))\<rparr>
                         else sess)) ss)
         \<and> interrupt (play_scenes_command (hd (filter (\<lambda>n. n \<in> set available) (scenes request))) True)
         \<and> (\<forall>c \<in> set (map (\<lambda>n. play_scenes_command n False)
                           (tl (filter (\<lambda>n. n \<in> set available) (scenes request)))).
               \<not> interrupt c)"
proof -
  let ?T = "target_sessions (PlayScenesRequest.client_id request) ss"
  let ?acc = "filter (\<lambda>n. n \<in> set available) (scenes request)"
  let ?ss1 = "for_each_session queue_clear ?T ss"
  have dT: "distinct ?T" using wf by (rule distinct_target_sessions)
  have ss1: "?ss1 = map (\<lambda>(k, s). (k, if k \<in> set ?T then queue_clear s else s)) ss"
    using wf dT by (rule for_each_session_as_map)
  have wf1: "wf_sessions ?ss1"
    using wf by (simp add: wf_sessions_def for_each_session_keys)
  from some have "?acc \<noteq> []"
    by (auto simp: filter_empty_conv)
  then obtain n ns where acc: "?acc = n # ns"
    by (cases ?acc) auto
  have loop: "play_scenes_loop True available ?T (scenes request) (?ss1, [], True) =
      (map (\<lambda>(k, s). (k, if k \<in> set ?T
                         then s\<lparr>queue := queue s @ batch_commands (True \<and> True) ?acc\<rparr>
                         else s)) ?ss1,
       [] @ ?acc, True \<and> ?acc = [])"
    using wf1 dT by (rule play_scenes_loop_as_map)
  have store: "map (\<lambda>(k, s). (k, if k \<in> set ?T
                         then s\<lparr>queue := queue s @ batch_commands (True \<and> True) ?acc\<rparr>
                         else s)) ?ss1 =
      map (\<lambda>(cid, sess). (cid, if cid \<in> set ?T
                         then sess\<lparr>queue := play_scenes_command (hd ?acc) True
                                # map (\<lambda>n. play_scenes_command n False) (tl ?acc)\<rparr>
                         else sess)) ss"
    unfolding ss1 acc by (auto simp: queue_clear_def batch_commands_def)
  have "play_scenes request fs ss =
      (Inr (Status_queued_targets ''ok'' ?acc (length ?T)),
       map (\<lambda>(k, s). (k, if k \<in> set ?T
                         then s\<lparr>queue := queue s @ batch_commands (True \<and> True) ?acc\<rparr>
                         else s)) ?ss1)"
    using intr files loop by (simp add: play_scenes_def truthy_bool_def Let_def)
  moreover have "interrupt (play_scenes_command (hd ?acc) True)"
    by (simp add: play_scenes_command_def)
  moreover have "\<forall>c \<in> set (map (\<lambda>n. play_scenes_command n False) (tl ?acc)). \<not> interrupt c"
    by (simp add: play_scenes_command_def)
  ultimately show ?thesis
    unfolding store by simp
qed

theorem play_scenes_interrupt_first_only_witness:
  "wf_sessions [(''a'', queue_append (play_scenes_command ''old'' False) (ClientSession_init 0)),
                (''b'', ClientSession_init 1)]
   \<and> load_scenes (Scenes_loaded [''bow'', ''wave'']) = Inr [''bow'', ''wave'']
   \<and> (\<exists>n \<in> set [''wave'', ''nope'', ''bow'']. n \<in> set [''bow'', ''wave''])
   \<and> play_scenes \<lparr>scenes = [''wave'', ''nope'', ''bow''],
                    PlayScenesRequest.interrupt = Some True,
                    PlayScenesRequest.client_id = Some ''a''\<rparr>
         (Scenes_loaded [''bow'', ''wave''])
         [(''a'', queue_append (play_scenes_command ''old'' False) (ClientSession_init 0)),
          (''b'', ClientSession_init 1)]
       = (Inr (Status_queued_targets ''ok'' [''wave'', ''bow''] 1),
          [(''a'', (ClientSession_init 0)
                     \<lparr>queue := [play_scenes_command ''wave'' True,
                                play_scenes_command ''bow'' False]\<rparr>),
           (''b'', ClientSession_init 1)])"
  using play_scenes_interrupt_first_only
    [of "[(''a'', queue_append (play_scenes_command ''old'' False) (ClientSession_init 0)),
          (''b'', ClientSession_init 1)]"
        "\<lparr>scenes = [''wave'', ''nope'', ''bow''],
          PlayScenesRequest.interrupt = Some True,
          PlayScenesRequest.client_id = Some ''a''\<rparr>"
        "Scenes_loaded [''bow'', ''wave'']" "[''bow'', ''wave'']"]
  by (simp add: wf_sessions_def load_scenes_def target_sessions_def truthy_str_def
      queue_append_def ClientSession_init_def)

section \<open>Single play-scene with interrupt\<close>

text \<open>
  Claim C4. A \<open>play_scene\<close> call with \<open>interrupt=true\<close> and a defined scene succeeds,
  and afterwards the queue of each targeted session holds exactly one command: the
  play-scene command just built, whose interrupt flag is set. The sessions that are not
  targeted are unchanged.
\<close>

theorem play_scene_interrupt_single:
  assumes wf: "wf_sessions ss"
    and intr: "PlayRequest.interrupt request = Some True"
    and files: "load_scenes fs = Inr defined"
    and known: "scene request \<in> set defined"
  shows "play_scene request fs ss =
           (Inr (Status_targets ''queued'' (length (target_sessions (PlayRequest.client_id request) ss))),
            map (\<lambda>(cid, sess).
                   (cid, if cid \<in> set (target_sessions (PlayRequest.client_id request) ss)
                         then sess\<lparr>queue := [play_scene_command request True]\<rparr> else sess)) ss)
         \<and> interrupt (play_scene_command request True)"
proof -
  let ?T = "target_sessions (PlayRequest.client_id request) ss"
  let ?ss1 = "for_each_session queue_clear ?T ss"
  have dT: "distinct ?T" using wf by (rule distinct_target_sessions)
  have ss1: "?ss1 = map (\<lambda>(k, s). (k, if k \<in> set ?T then queue_clear s else s)) ss"
    using wf dT by (rule for_each_session_as_map)
  have wf1: "wf_sessions ?ss1"
    using wf by (simp add: wf_sessions_def for_each_session_keys)
  have "for_each_session (queue_append (play_scene_command request True)) ?T ?ss1 =
          map (\<lambda>(k, s). (k, if k \<in> set ?T then queue_append (play_scene_command request True) s else s)) ?ss1"
    using wf1 dT by (rule for_each_session_as_map)
  also have "\<dots> = map (\<lambda>(cid, sess).
                   (cid, if cid \<in> set ?T
                         then sess\<lparr>queue := [play_scene_command request True]\<rparr> else sess)) ss"
    unfolding ss1 by (auto simp: queue_append_def queue_clear_def)
  finally have final: "for_each_session (queue_append (play_scene_command request True)) ?T ?ss1 =
      map (\<lambda>(cid, sess). (cid, if cid \<in> set ?T
                         then sess\<lparr>queue := [play_scene_command request True]\<rparr> else sess)) ss" .
  have "interrupt (play_scene_command request True)"
    by (simp add: play_scene_command_def)
  moreover have "play_scene request fs ss =
      (Inr (Status_targets ''queued'' (length ?T)),
       for_each_session (queue_append (play_scene_command request True)) ?T ?ss1)"
    using intr files known by (simp add: play_scene_def truthy_bool_def Let_def)
  ultimately show ?thesis
    using final by simp
qed

theorem play_scene_interrupt_single_witness:
  "wf_sessions [(''a'', queue_append (play_scenes_command ''old'' False) (ClientSession_init 0)),
                (''b'', ClientSession_init 1)]
   \<and> load_scenes (Scenes_loaded [''wave'']) = Inr [''wave'']
   \<and> play_scene \<lparr>scene = ''wave'', loop = Some False, audio_url = None, msg = None,
                    PlayRequest.interrupt = Some True, PlayRequest.client_id = Some ''a''\<rparr>
         (Scenes_loaded [''wave''])
         [(''a'', queue_append (play_scenes_command ''old'' False) (ClientSession_init 0)),
          (''b'', ClientSession_init 1)]
       = (Inr (Status_targets ''queued'' 1),
          [(''a'', (ClientSession_init 0)\<lparr>queue :=
                     [\<lparr>payload = [(''scene'', JStr ''wave''), (''loop'', JBool False),
                                  (''audio_url'', JNull), (''msg'', JNull)],
                       interrupt = True\<rparr>]\<rparr>),
           (''b'', ClientSession_init 1)])"
  using play_scene_interrupt_single
    [of "[(''a'', queue_append (play_scenes_command ''old'' False) (ClientSession_init 0)),
          (''b'', ClientSession_init 1)]"
        "\<lparr>scene = ''wave'', loop = Some False, audio_url = None, msg = None,
          PlayRequest.interrupt = Some True, PlayRequest.client_id = Some ''a''\<rparr>"
        "Scenes_loaded [''wave'']" "[''wave'']"]
  by (simp add: wf_sessions_def load_scenes_def target_sessions_def truthy_str_def
      queue_append_def ClientSession_init_def play_scene_command_def json_bool_def json_str_def)

section \<open>Unknown target\<close>

text \<open>
  Claim C5, as stated, fails at two inputs. A \<open>play_scene\<close> call for the unknown id
  \<open>ghost\<close> with an undefined scene returns 404, not a success with zero targets. And the
  client id \<open>""\<close>, for which no session exists, is falsy: \<open>apply_profile\<close> broadcasts,
  here to the one session \<open>a\<close>, and reports one target.
\<close>

theorem unknown_target_counterexample:
  "map_of ([] :: sessions) ''ghost'' = None
   \<and> fst (play_scene \<lparr>scene = ''missing'', loop = Some False, audio_url = None, msg = None,
                    PlayRequest.interrupt = Some True, PlayRequest.client_id = Some ''ghost''\<rparr>
            Scenes_absent [])
       = Inl (HTTPException 404)
   \<and> map_of [(''a'', ClientSession_init 0)] '''' = None
   \<and> apply_profile \<lparr>profile = Some ''calm'', CommandInput.client_id = Some ''''\<rparr>
         [(''a'', ClientSession_init 0)]
       = (Inr (Status_targets ''queued'' 1),
          [(''a'', (ClientSession_init 0)
                     \<lparr>queue := [\<lparr>payload = [(''profile'', JStr ''calm'')], interrupt = False\<rparr>]\<rparr>)])"
  by (simp add: play_scene_def apply_profile_def target_sessions_def truthy_str_def truthy_bool_def
      for_each_session_def queue_clear_def queue_append_def load_scenes_def internal_command_def
      json_str_def ClientSession_init_def)

text \<open>
  Claim C5, amended. For a non-empty client id with no session, every command-issuing
  operation leaves the session store exactly as it was (no session is created, no queue
  or state is touched). \<open>update_status\<close> and \<open>apply_profile\<close> succeed with zero targets;
  \<open>play_scenes\<close> succeeds with zero targets when the scene definitions are readable;
  \<open>play_scene\<close> succeeds with zero targets when the scene definitions are readable, the
  scene is defined and \<open>interrupt\<close> is not null.
\<close>

theorem unknown_target_is_noop:
  assumes "cid \<noteq> []" and "map_of ss cid = None"
  shows "update_status (upd\<lparr>StatusUpdate.client_id := Some cid\<rparr>) ss =
           (Inr (Status_targets ''updated'' 0), ss)
       \<and> apply_profile (command_input\<lparr>CommandInput.client_id := Some cid\<rparr>) ss =
           (Inr (Status_targets ''queued'' 0), ss)
       \<and> snd (play_scene (play\<lparr>PlayRequest.client_id := Some cid\<rparr>) fs ss) = ss
       \<and> (\<forall>defined b. load_scenes fs = Inr defined \<and> scene play \<in> set defined
              \<and> PlayRequest.interrupt play = Some b \<longrightarrow>
            fst (play_scene (play\<lparr>PlayRequest.client_id := Some cid\<rparr>) fs ss) =
              Inr (Status_targets ''queued'' 0))
       \<and> snd (play_scenes (batch\<lparr>PlayScenesRequest.client_id := Some cid\<rparr>) fs ss) = ss
       \<and> (\<forall>available. load_scenes fs = Inr available \<longrightarrow>
            fst (play_scenes (batch\<lparr>PlayScenesRequest.client_id := Some cid\<rparr>) fs ss) =
              Inr (Status_queued_targets ''ok''
                     (filter (\<lambda>n. n \<in> set available) (scenes batch)) 0))"
proof -
  have t: "target_sessions (Some cid) ss = []"
    using assms by (rule target_sessions_unknown)
  have nop: "\<And>f. for_each_session f [] ss = ss"
    by (simp add: for_each_session_def)
  have "update_status (upd\<lparr>StatusUpdate.client_id := Some cid\<rparr>) ss =
           (Inr (Status_targets ''updated'' 0), ss)"
    by (simp add: update_status_def t nop)
  moreover have "apply_profile (command_input\<lparr>CommandInput.client_id := Some cid\<rparr>) ss =
           (Inr (Status_targets ''queued'' 0), ss)"
    by (simp add: apply_profile_def t nop)
  moreover have "snd (play_scene (play\<lparr>PlayRequest.client_id := Some cid\<rparr>) fs ss) = ss"
    by (simp add: play_scene_def t nop Let_def split: sum.splits option.splits)
  moreover have "\<forall>defined b. load_scenes fs = Inr defined \<and> scene play \<in> set defined
              \<and> PlayRequest.interrupt play = Some b \<longrightarrow>
            fst (play_scene (play\<lparr>PlayRequest.client_id := Some cid\<rparr>) fs ss) =
              Inr (Status_targets ''queued'' 0)"
    by (simp add: play_scene_def t nop Let_def)
  moreover have "snd (play_scenes (batch\<lparr>PlayScenesRequest.client_id := Some cid\<rparr>) fs ss) = ss"
    by (simp add: play_scenes_def t nop Let_def play_scenes_loop_no_targets split: sum.splits)
  moreover have "\<forall>available. load_scenes fs = Inr available \<longrightarrow>
            fst (play_scenes (batch\<lparr>PlayScenesRequest.client_id := Some cid\<rparr>) fs ss) =
              Inr (Status_queued_targets ''ok''
                     (filter (\<lambda>n. n \<in> set available) (scenes batch)) 0)"
    by (simp add: play_scenes_def t nop Let_def play_scenes_loop_no_targets)
  ultimately show ?thesis by blast
qed

theorem unknown_target_is_noop_witness:
  "''ghost'' \<noteq> []
   \<and> map_of [(''a'', ClientSession_init 0)] ''ghost'' = None
   \<and> load_scenes (Scenes_loaded [''wave'']) = Inr [''wave'']
   \<and> update_status \<lparr>StatusUpdate.client_id = Some ''ghost'', StatusUpdate.is_muted = Some True,
                     StatusUpdate.is_sync_enabled = None\<rparr>
        [(''a'', ClientSession_init 0)]
       = (Inr (Status_targets ''updated'' 0), [(''a'', ClientSession_init 0)])
   \<and> apply_profile \<lparr>profile = Some ''calm'', CommandInput.client_id = Some ''ghost''\<rparr>
        [(''a'', ClientSession_init 0)]
       = (Inr (Status_targets ''queued'' 0), [(''a'', ClientSession_init 0)])
   \<and> play_scene \<lparr>scene = ''wave'', loop = Some False, audio_url = None, msg = None,
                  PlayRequest.interrupt = Some True, PlayRequest.client_id = Some ''ghost''\<rparr>
        (Scenes_loaded [''wave'']) [(''a'', ClientSession_init 0)]
       = (Inr (Status_targets ''queued'' 0), [(''a'', ClientSession_init 0)])
   \<and> play_scenes \<lparr>scenes = [''wave'', ''nope''], PlayScenesRequest.interrupt = Some True,
                   PlayScenesRequest.client_id = Some ''ghost''\<rparr>
        (Scenes_loaded [''wave'']) [(''a'', ClientSession_init 0)]
       = (Inr (Status_queued_targets ''ok'' [''wave''] 0), [(''a'', ClientSession_init 0)])"
proof -
  have h1: "''ghost'' \<noteq> []" by simp
  have h2: "map_of [(''a'', ClientSession_init 0)] ''ghost'' = None" by simp
  have h3: "load_scenes (Scenes_loaded [''wave'']) = Inr [''wave'']"
    by (simp add: load_scenes_def)
  note inst = unknown_target_is_noop [OF h1 h2,
      of "\<lparr>StatusUpdate.client_id = None, StatusUpdate.is_muted = Some True,
           StatusUpdate.is_sync_enabled = None\<rparr>"
         "\<lparr>profile = Some ''calm'', CommandInput.client_id = None\<rparr>"
         "\<lparr>scene = ''wave'', loop = Some False, audio_url = None, msg = None,
           PlayRequest.interrupt = Some True, PlayRequest.client_id = None\<rparr>"
         "Scenes_loaded [''wave'']"
         "\<lparr>scenes = [''wave'', ''nope''], PlayScenesRequest.interrupt = Some True,
           PlayScenesRequest.client_id = None\<rparr>"]
  show ?thesis
    using h1 h2 h3 inst by (auto simp: prod_eq_iff)
qed

section \<open>Apply-profile\<close>

text \<open>
  Claim C6. \<open>apply_profile\<close> appends one command to each targeted queue, behind what
  the queue already held (nothing is cleared), and leaves every other session alone; the
  command's interrupt flag is false for every input (the request model has no interrupt
  field, and the handler writes the constant).
\<close>

theorem apply_profile_never_interrupts:
  assumes wf: "wf_sessions ss"
  shows "snd (apply_profile command_input ss) =
           map (\<lambda>(cid, sess).
                  (cid, if cid \<in> set (target_sessions (CommandInput.client_id command_input) ss)
                        then sess\<lparr>queue := queue sess @ [internal_command command_input]\<rparr>
                        else sess)) ss
         \<and> \<not> interrupt (internal_command command_input)"
proof -
  let ?T = "target_sessions (CommandInput.client_id command_input) ss"
  have dT: "distinct ?T" using wf by (rule distinct_target_sessions)
  have "\<not> interrupt (internal_command command_input)"
    by (simp add: internal_command_def)
  moreover have "snd (apply_profile command_input ss) =
      for_each_session (queue_append (internal_command command_input)) ?T ss"
    by (simp add: apply_profile_def Let_def)
  ultimately show ?thesis
    using for_each_session_as_map [OF wf dT, of "queue_append (internal_command command_input)"]
    by (auto simp: queue_append_def)
qed

theorem apply_profile_never_interrupts_witness:
  "wf_sessions [(''a'', queue_append (play_scenes_command ''old'' True) (ClientSession_init 0)),
                (''b'', ClientSession_init 1)]
   \<and> snd (apply_profile \<lparr>profile = Some ''calm'', CommandInput.client_id = None\<rparr>
         [(''a'', queue_append (play_scenes_command ''old'' True) (ClientSession_init 0)),
          (''b'', ClientSession_init 1)])
       = [(''a'', (ClientSession_init 0)\<lparr>queue :=
                     [play_scenes_command ''old'' True,
                      \<lparr>payload = [(''profile'', JStr ''calm'')], interrupt = False\<rparr>]\<rparr>),
          (''b'', (ClientSession_init 1)\<lparr>queue :=
                     [\<lparr>payload = [(''profile'', JStr ''calm'')], interrupt = False\<rparr>]\<rparr>)]"
  using apply_profile_never_interrupts
    [of "[(''a'', queue_append (play_scenes_command ''old'' True) (ClientSession_init 0)),
          (''b'', ClientSession_init 1)]"
        "\<lparr>profile = Some ''calm'', CommandInput.client_id = None\<rparr>"]
  by (simp add: wf_sessions_def target_sessions_def queue_append_def ClientSession_init_def
      internal_command_def json_str_def)

section \<open>Status report\<close>

text \<open>
  Claim C7. \<open>report_status\<close> always answers \<open>ok\<close>. Afterwards a session exists for the
  reporting id; its \<open>current_profile\<close>, \<open>current_scene\<close>, \<open>queue_size\<close> and \<open>is_looping\<close>
  are the submitted values; its \<open>is_muted\<close>, \<open>is_sync_enabled\<close> and queue are those of the
  session before the call, or those of a fresh session if there was none. Every other
  session is unchanged.
\<close>

theorem report_status_overwrites:
  "fst (report_status now report ss) = Inr (Status_only ''ok'')
   \<and> (\<exists>sess'. map_of (snd (report_status now report ss)) (StatusReport.client_id report) = Some sess'
        \<and> current_profile (state sess') = StatusReport.current_profile report
        \<and> current_scene (state sess') = StatusReport.current_scene report
        \<and> queue_size (state sess') = StatusReport.queue_size report
        \<and> is_looping (state sess') = StatusReport.is_looping report
        \<and> (case map_of ss (StatusReport.client_id report) of
              None \<Rightarrow>
                is_muted (state sess') = is_muted (state (ClientSession_init now))
                \<and> is_sync_enabled (state sess') = is_sync_enabled (state (ClientSession_init now))
                \<and> queue sess' = []
            | Some sess \<Rightarrow>
                is_muted (state sess') = is_muted (state sess)
                \<and> is_sync_enabled (state sess') = is_sync_enabled (state sess)
                \<and> queue sess' = queue sess))
   \<and> (\<forall>other. other \<noteq> StatusReport.client_id report \<longrightarrow>
         map_of (snd (report_status now report ss)) other = map_of ss other)"
proof -
  let ?cid = "StatusReport.client_id report"
  obtain sess ss1 where g: "get_or_create_session now ?cid ss = (sess, ss1)"
    by (cases "get_or_create_session now ?cid ss")
  from get_or_create_session_lookup [OF g]
  have m1: "map_of ss1 = (map_of ss)(?cid \<mapsto> sess)"
    and sess: "sess = (case map_of ss ?cid of None \<Rightarrow> ClientSession_init now | Some s \<Rightarrow> s)
                       \<lparr>last_seen := now\<rparr>"
    by simp_all
  have res: "report_status now report ss =
      (Inr (Status_only ''ok''), AList.map_entry ?cid (report_status_body report) ss1)"
    using g by (simp add: report_status_def)
  have new: "map_of (snd (report_status now report ss)) =
      (map_of ss)(?cid \<mapsto> report_status_body report sess)"
    unfolding res by (simp add: map_of_map_entry m1)
  have "fst (report_status now report ss) = Inr (Status_only ''ok'')"
    by (simp add: res)
  moreover have "\<forall>other. other \<noteq> ?cid \<longrightarrow>
         map_of (snd (report_status now report ss)) other = map_of ss other"
    by (simp add: new)
  moreover have "map_of (snd (report_status now report ss)) ?cid =
      Some (report_status_body report sess)"
    by (simp add: new)
  ultimately show ?thesis
    using sess
    by (simp add: report_status_body_def ClientSession_init_def split: option.splits)
qed

theorem report_status_overwrites_witness:
  "fst (report_status 7
          \<lparr>StatusReport.client_id = ''b'', StatusReport.current_profile = None,
           StatusReport.current_scene = Some ''wave'', StatusReport.queue_size = 0,
           StatusReport.is_looping = False\<rparr>
          [(''a'', ClientSession_init 0)]) = Inr (Status_only ''ok'')
   \<and> map_of (snd (report_status 7
          \<lparr>StatusReport.client_id = ''b'', StatusReport.current_profile = None,
           StatusReport.current_scene = Some ''wave'', StatusReport.queue_size = 0,
           StatusReport.is_looping = False\<rparr>
          [(''a'', ClientSession_init 0)])) ''a'' = Some (ClientSession_init 0)
   \<and> ''a'' \<noteq> ''b''"
  using report_status_overwrites
    [of 7 "\<lparr>StatusReport.client_id = ''b'', StatusReport.current_profile = None,
           StatusReport.current_scene = Some ''wave'', StatusReport.queue_size = 0,
           StatusReport.is_looping = False\<rparr>"
        "[(''a'', ClientSession_init 0)]"]
  by simp

section \<open>Idle sweep\<close>

text \<open>
  Claim C8. For every timeout and every clock reading, \<open>cleanup_sessions\<close> returns
  without an error, removes exactly the sessions for which the difference
  \<open>now - last_seen\<close>, as the machine computes it, is strictly greater than the timeout,
  whatever their queues hold, and keeps every other session as it was (queue, reported
  state, \<open>last_seen\<close>) and in the same order. Where the machine's subtraction is exact on
  the sessions of the store, these are exactly the sessions whose real difference
  \<open>now - last_seen\<close> is strictly greater than the timeout.
\<close>

theorem cleanup_sessions_exact:
  assumes "wf_sessions ss"
  shows "cleanup_sessions float_sub timeout_seconds now ss =
           Inr (filter (\<lambda>(cid, sess). \<not> float_sub now (last_seen sess) > timeout_seconds) ss)
         \<and> ((\<forall>(cid, sess) \<in> set ss. float_sub now (last_seen sess) = now - last_seen sess) \<longrightarrow>
              cleanup_sessions float_sub timeout_seconds now ss =
                Inr (filter (\<lambda>(cid, sess). \<not> now - last_seen sess > timeout_seconds) ss))"
proof -
  have closed: "cleanup_sessions float_sub timeout_seconds now ss =
      Inr (filter (\<lambda>(cid, sess). \<not> float_sub now (last_seen sess) > timeout_seconds) ss)"
    using assms by (rule cleanup_sessions_as_filter)
  have "filter (\<lambda>(cid, sess). \<not> float_sub now (last_seen sess) > timeout_seconds) ss =
        filter (\<lambda>(cid, sess). \<not> now - last_seen sess > timeout_seconds) ss"
    if "\<forall>(cid, sess) \<in> set ss. float_sub now (last_seen sess) = now - last_seen sess"
    using that by (intro filter_cong) auto
  with closed show ?thesis by simp
qed

text \<open>
  At the readings 0, 300 and 500 and the reading 600 for \<open>now\<close>, the differences 600,
  300 and 100 are binary64 numbers, so the machine's subtraction is the subtraction of
  the reals there. With timeout 300 the session seen at 0 goes, with its queued command;
  the session seen exactly 300 seconds ago stays.
\<close>

theorem cleanup_sessions_exact_witness:
  "wf_sessions [(''a'', queue_append (play_scenes_command ''old'' False) (ClientSession_init 0)),
                (''b'', ClientSession_init 300), (''c'', ClientSession_init 500)]
   \<and> cleanup_sessions (-) 300 600
         [(''a'', queue_append (play_scenes_command ''old'' False) (ClientSession_init 0)),
          (''b'', ClientSession_init 300), (''c'', ClientSession_init 500)]
       = Inr [(''b'', ClientSession_init 300), (''c'', ClientSession_init 500)]"
  using cleanup_sessions_exact
    [of "[(''a'', queue_append (play_scenes_command ''old'' False) (ClientSession_init 0)),
          (''b'', ClientSession_init 300), (''c'', ClientSession_init 500)]" "(-)" 300 600]
  by (simp add: wf_sessions_def ClientSession_init_def queue_append_def)

section \<open>Empty client id\<close>

text \<open>
  Claim C9. With the empty string as client id, each operation reaches every known
  session, whether or not a session with the empty id exists, and reports their number
  as \<open>targets\<close>: \<open>update_status\<close> applies the push to every session,
  \<open>apply_profile\<close> appends its command to every queue, \<open>play_scene\<close> (scene defined,
  files readable) clears every queue if interrupting and appends its command to every
  queue, and \<open>play_scenes\<close> (files readable) does so with its batch. In every case,
  errors included, the call does exactly what it does with no client id.
\<close>

theorem empty_client_id_is_broadcast:
  assumes wf: "wf_sessions ss"
  shows "target_sessions (Some []) ss = map fst ss
   \<and> update_status (upd\<lparr>StatusUpdate.client_id := Some []\<rparr>) ss =
       (Inr (Status_targets ''updated'' (length ss)),
        map (\<lambda>(cid, sess). (cid, update_status_body upd sess)) ss)
   \<and> apply_profile (command_input\<lparr>CommandInput.client_id := Some []\<rparr>) ss =
       (Inr (Status_targets ''queued'' (length ss)),
        map (\<lambda>(cid, sess). (cid, sess\<lparr>queue := queue sess @ [internal_command command_input]\<rparr>)) ss)
   \<and> (load_scenes fs = Inr defined \<and> scene play \<in> set defined
        \<and> PlayRequest.interrupt play = Some b \<longrightarrow>
       play_scene (play\<lparr>PlayRequest.client_id := Some []\<rparr>) fs ss =
         (Inr (Status_targets ''queued'' (length ss)),
          map (\<lambda>(cid, sess).
                 (cid, sess\<lparr>queue := (if b then [] else queue sess) @ [play_scene_command play b]\<rparr>)) ss))
   \<and> (load_scenes fs = Inr available \<longrightarrow>
       play_scenes (batch\<lparr>PlayScenesRequest.client_id := Some []\<rparr>) fs ss =
         (Inr (Status_queued_targets ''ok'' (filter (\<lambda>n. n \<in> set available) (scenes batch)) (length ss)),
          map (\<lambda>(cid, sess).
                 (cid, sess\<lparr>queue :=
                    (if truthy_bool (PlayScenesRequest.interrupt batch) then [] else queue sess)
                    @ batch_commands (truthy_bool (PlayScenesRequest.interrupt batch))
                        (filter (\<lambda>n. n \<in> set available) (scenes batch))\<rparr>)) ss))
   \<and> update_status (upd\<lparr>StatusUpdate.client_id := Some []\<rparr>) ss =
       update_status (upd\<lparr>StatusUpdate.client_id := None\<rparr>) ss
   \<and> apply_profile (command_input\<lparr>CommandInput.client_id := Some []\<rparr>) ss =
       apply_profile (command_input\<lparr>CommandInput.client_id := None\<rparr>) ss
   \<and> play_scene (play\<lparr>PlayRequest.client_id := Some []\<rparr>) fs ss =
       play_scene (play\<lparr>PlayRequest.client_id := None\<rparr>) fs ss
   \<and> play_scenes (batch\<lparr>PlayScenesRequest.client_id := Some []\<rparr>) fs ss =
       play_scenes (batch\<lparr>PlayScenesRequest.client_id := None\<rparr>) fs ss"
proof -
  let ?T = "map fst ss"
  have t: "target_sessions (Some []) ss = ?T"
    by (rule target_sessions_empty_id)
  have tn: "target_sessions None ss = ?T"
    by (simp add: target_sessions_def)
  have len: "length ?T = length ss" by simp
  note all = for_each_session_all [OF wf]
  have body: "update_status_body (upd\<lparr>StatusUpdate.client_id := c\<rparr>) = update_status_body upd" for c
    by (rule ext) (simp add: update_status_body_def)
  have cmd: "internal_command (command_input\<lparr>CommandInput.client_id := c\<rparr>) =
             internal_command command_input" for c
    by (simp add: internal_command_def)
  have pcmd: "play_scene_command (play\<lparr>PlayRequest.client_id := c\<rparr>) b' = play_scene_command play b'" for c b'
    by (simp add: play_scene_command_def)

  have c1: "update_status (upd\<lparr>StatusUpdate.client_id := Some []\<rparr>) ss =
       (Inr (Status_targets ''updated'' (length ss)),
        map (\<lambda>(cid, sess). (cid, update_status_body upd sess)) ss)"
    by (simp add: update_status_def t body all)
  have c2: "apply_profile (command_input\<lparr>CommandInput.client_id := Some []\<rparr>) ss =
       (Inr (Status_targets ''queued'' (length ss)),
        map (\<lambda>(cid, sess). (cid, sess\<lparr>queue := queue sess @ [internal_command command_input]\<rparr>)) ss)"
    by (simp add: apply_profile_def t cmd all queue_append_def [abs_def])

  have c3: "play_scene (play\<lparr>PlayRequest.client_id := Some []\<rparr>) fs ss =
         (Inr (Status_targets ''queued'' (length ss)),
          map (\<lambda>(cid, sess).
                 (cid, sess\<lparr>queue := (if b then [] else queue sess) @ [play_scene_command play b]\<rparr>)) ss)"
    if h: "load_scenes fs = Inr defined" "scene play \<in> set defined" "PlayRequest.interrupt play = Some b"
  proof -
    let ?ss1 = "if b then for_each_session queue_clear ?T ss else ss"
    have ss1: "?ss1 = map (\<lambda>(cid, sess). (cid, if b then queue_clear sess else sess)) ss"
      by (cases b) (simp_all add: all)
    have wf1: "wf_sessions ?ss1"
      using wf by (simp add: wf_for_each_session)
    have keys1: "map fst ?ss1 = ?T"
      by (simp add: for_each_session_keys)
    have "play_scene (play\<lparr>PlayRequest.client_id := Some []\<rparr>) fs ss =
        (Inr (Status_targets ''queued'' (length ss)),
         for_each_session (queue_append (play_scene_command play b)) ?T ?ss1)"
      using h by (simp add: play_scene_def t truthy_bool_def pcmd Let_def)
    also have "for_each_session (queue_append (play_scene_command play b)) ?T ?ss1 =
        map (\<lambda>(cid, sess). (cid, queue_append (play_scene_command play b) sess)) ?ss1"
      using for_each_session_all [OF wf1, of "queue_append (play_scene_command play b)"]
      by (simp only: keys1)
    also have "\<dots> = map (\<lambda>(cid, sess).
                 (cid, sess\<lparr>queue := (if b then [] else queue sess) @ [play_scene_command play b]\<rparr>)) ss"
      unfolding ss1 by (auto simp: queue_append_def queue_clear_def)
    finally show ?thesis .
  qed

  have c4: "play_scenes (batch\<lparr>PlayScenesRequest.client_id := Some []\<rparr>) fs ss =
         (Inr (Status_queued_targets ''ok'' (filter (\<lambda>n. n \<in> set available) (scenes batch)) (length ss)),
          map (\<lambda>(cid, sess).
                 (cid, sess\<lparr>queue :=
                    (if truthy_bool (PlayScenesRequest.interrupt batch) then [] else queue sess)
                    @ batch_commands (truthy_bool (PlayScenesRequest.interrupt batch))
                        (filter (\<lambda>n. n \<in> set available) (scenes batch))\<rparr>)) ss)"
    if h: "load_scenes fs = Inr available"
  proof -
    let ?i = "truthy_bool (PlayScenesRequest.interrupt batch)"
    let ?acc = "filter (\<lambda>n. n \<in> set available) (scenes batch)"
    let ?ss1 = "if ?i then for_each_session queue_clear ?T ss else ss"
    have ss1: "?ss1 = map (\<lambda>(cid, sess). (cid, if ?i then queue_clear sess else sess)) ss"
      by (cases ?i) (simp_all add: all)
    have wf1: "wf_sessions ?ss1"
      using wf by (simp add: wf_for_each_session)
    have dT: "distinct ?T"
      using wf by (simp add: wf_sessions_def)
    have loop: "play_scenes_loop ?i available ?T (scenes batch) (?ss1, [], True) =
        (map (\<lambda>(k, s). (k, if k \<in> set ?T
                           then s\<lparr>queue := queue s @ batch_commands (True \<and> ?i) ?acc\<rparr>
                           else s)) ?ss1,
         [] @ ?acc, True \<and> ?acc = [])"
      using wf1 dT by (rule play_scenes_loop_as_map)
    have store: "map (\<lambda>(k, s). (k, if k \<in> set ?T
                           then s\<lparr>queue := queue s @ batch_commands (True \<and> ?i) ?acc\<rparr>
                           else s)) ?ss1 =
        map (\<lambda>(cid, sess).
                 (cid, sess\<lparr>queue := (if ?i then [] else queue sess) @ batch_commands ?i ?acc\<rparr>)) ss"
      unfolding ss1 by (force simp: queue_clear_def)
    have "play_scenes (batch\<lparr>PlayScenesRequest.client_id := Some []\<rparr>) fs ss =
        (Inr (Status_queued_targets ''ok'' ?acc (length ss)),
         map (\<lambda>(k, s). (k, if k \<in> set ?T
                           then s\<lparr>queue := queue s @ batch_commands (True \<and> ?i) ?acc\<rparr>
                           else s)) ?ss1)"
      using h loop by (simp add: play_scenes_def t Let_def)
    then show ?thesis
      by (simp only: store)
  qed

  have e1: "update_status (upd\<lparr>StatusUpdate.client_id := Some []\<rparr>) ss =
        update_status (upd\<lparr>StatusUpdate.client_id := None\<rparr>) ss"
    by (simp add: update_status_def t tn body)
  have e2: "apply_profile (command_input\<lparr>CommandInput.client_id := Some []\<rparr>) ss =
       apply_profile (command_input\<lparr>CommandInput.client_id := None\<rparr>) ss"
    by (simp add: apply_profile_def t tn cmd)
  have e3: "play_scene (play\<lparr>PlayRequest.client_id := Some []\<rparr>) fs ss =
       play_scene (play\<lparr>PlayRequest.client_id := None\<rparr>) fs ss"
    by (simp add: play_scene_def t tn pcmd Let_def split: sum.splits option.splits)
  have e4: "play_scenes (batch\<lparr>PlayScenesRequest.client_id := Some []\<rparr>) fs ss =
       play_scenes (batch\<lparr>PlayScenesRequest.client_id := None\<rparr>) fs ss"
    by (simp add: play_scenes_def t tn Let_def split: sum.splits)
  from t c1 c2 c3 c4 e1 e2 e3 e4 show ?thesis
    by blast
qed

text \<open>
  A store with a session whose id is the empty string and a session \<open>a\<close>: each call
  with client id \<open>""\<close> reports two targets and changes both sessions.
\<close>

theorem empty_client_id_is_broadcast_witness:
  "wf_sessions [('''', ClientSession_init 0), (''a'', ClientSession_init 1)]
   \<and> load_scenes (Scenes_loaded [''wave'']) = Inr [''wave'']
   \<and> update_status \<lparr>StatusUpdate.client_id = Some '''', StatusUpdate.is_muted = Some True,
                     StatusUpdate.is_sync_enabled = None\<rparr>
         [('''', ClientSession_init 0), (''a'', ClientSession_init 1)]
       = (Inr (Status_targets ''updated'' 2),
          [('''', (ClientSession_init 0)\<lparr>state := (state (ClientSession_init 0))\<lparr>is_muted := True\<rparr>\<rparr>),
           (''a'', (ClientSession_init 1)\<lparr>state := (state (ClientSession_init 1))\<lparr>is_muted := True\<rparr>\<rparr>)])
   \<and> apply_profile \<lparr>profile = Some ''calm'', CommandInput.client_id = Some ''''\<rparr>
         [('''', ClientSession_init 0), (''a'', ClientSession_init 1)]
       = (Inr (Status_targets ''queued'' 2),
          [('''', (ClientSession_init 0)
                    \<lparr>queue := [\<lparr>payload = [(''profile'', JStr ''calm'')], interrupt = False\<rparr>]\<rparr>),
           (''a'', (ClientSession_init 1)
                    \<lparr>queue := [\<lparr>payload = [(''profile'', JStr ''calm'')], interrupt = False\<rparr>]\<rparr>)])
   \<and> play_scene \<lparr>scene = ''wave'', loop = Some False, audio_url = None, msg = None,
                  PlayRequest.interrupt = Some True, PlayRequest.client_id = Some ''''\<rparr>
         (Scenes_loaded [''wave''])
         [('''', ClientSession_init 0), (''a'', ClientSession_init 1)]
       = (Inr (Status_targets ''queued'' 2),
          [('''', (ClientSession_init 0)
                    \<lparr>queue := [\<lparr>payload = [(''scene'', JStr ''wave''), (''loop'', JBool False),
                                           (''audio_url'', JNull), (''msg'', JNull)],
                                interrupt = True\<rparr>]\<rparr>),
           (''a'', (ClientSession_init 1)
                    \<lparr>queue := [\<lparr>payload = [(''scene'', JStr ''wave''), (''loop'', JBool False),
                                           (''audio_url'', JNull), (''msg'', JNull)],
                                interrupt = True\<rparr>]\<rparr>)])
   \<and> play_scenes \<lparr>scenes = [''wave'', ''nope''], PlayScenesRequest.interrupt = Some False,
                   PlayScenesRequest.client_id = Some ''''\<rparr>
         (Scenes_loaded [''wave''])
         [('''', ClientSession_init 0), (''a'', ClientSession_init 1)]
       = (Inr (Status_queued_targets ''ok'' [''wave''] 2),
          [('''', (ClientSession_init 0)\<lparr>queue := [play_scenes_command ''wave'' False]\<rparr>),
           (''a'', (ClientSession_init 1)\<lparr>queue := [play_scenes_command ''wave'' False]\<rparr>)])"
proof -
  have h: "wf_sessions [('''', ClientSession_init 0), (''a'', ClientSession_init 1)]"
    by (simp add: wf_sessions_def)
  have f: "load_scenes (Scenes_loaded [''wave'']) = Inr [''wave'']"
    by (simp add: load_scenes_def)
  note inst = empty_client_id_is_broadcast [OF h,
      where upd = "\<lparr>StatusUpdate.client_id = None, StatusUpdate.is_muted = Some True,
                    StatusUpdate.is_sync_enabled = None\<rparr>"
        and command_input = "\<lparr>profile = Some ''calm'', CommandInput.client_id = None\<rparr>"
        and play = "\<lparr>scene = ''wave'', loop = Some False, audio_url = None, msg = None,
                     PlayRequest.interrupt = Some True, PlayRequest.client_id = None\<rparr>"
        and batch = "\<lparr>scenes = [''wave'', ''nope''], PlayScenesRequest.interrupt = Some False,
                      PlayScenesRequest.client_id = None\<rparr>"
        and fs = "Scenes_loaded [''wave'']" and defined = "[''wave'']" and b = True
        and available = "[''wave'']"]
  show ?thesis
    using h f inst
    by (simp add: update_status_body_def internal_command_def play_scene_command_def
        batch_commands_def truthy_bool_def json_str_def json_bool_def ClientSession_init_def)
qed

section \<open>Scene sequence with interrupt and no known scene\<close>

text \<open>
  Claim C10. A \<open>play_scenes\<close> call with \<open>interrupt=true\<close>, with readable scene
  definitions and none of the requested names defined, answers \<open>ok\<close> with an empty
  \<open>queued\<close> list; every targeted queue is left empty, and nothing else changes.
\<close>

theorem play_scenes_interrupt_none_known:
  assumes wf: "wf_sessions ss"
    and intr: "PlayScenesRequest.interrupt request = Some True"
    and files: "load_scenes fs = Inr available"
    and none: "\<forall>n \<in> set (scenes request). n \<notin> set available"
  shows "play_scenes request fs ss =
           (Inr (Status_queued_targets ''ok'' []
                   (length (target_sessions (PlayScenesRequest.client_id request) ss))),
            map (\<lambda>(cid, sess).
                   (cid, if cid \<in> set (target_sessions (PlayScenesRequest.client_id request) ss)
                         then sess\<lparr>queue := []\<rparr> else sess)) ss)"
proof -
  let ?T = "target_sessions (PlayScenesRequest.client_id request) ss"
  let ?acc = "filter (\<lambda>n. n \<in> set available) (scenes request)"
  let ?ss1 = "for_each_session queue_clear ?T ss"
  have dT: "distinct ?T" using wf by (rule distinct_target_sessions)
  have ss1: "?ss1 = map (\<lambda>(k, s). (k, if k \<in> set ?T then queue_clear s else s)) ss"
    using wf dT by (rule for_each_session_as_map)
  have wf1: "wf_sessions ?ss1"
    using wf by (simp add: wf_sessions_def for_each_session_keys)
  from none have acc: "?acc = []"
    by (simp add: filter_empty_conv)
  have loop: "play_scenes_loop True available ?T (scenes request) (?ss1, [], True) =
      (map (\<lambda>(k, s). (k, if k \<in> set ?T
                         then s\<lparr>queue := queue s @ batch_commands (True \<and> True) ?acc\<rparr>
                         else s)) ?ss1,
       [] @ ?acc, True \<and> ?acc = [])"
    using wf1 dT by (rule play_scenes_loop_as_map)
  have store: "map (\<lambda>(k, s). (k, if k \<in> set ?T
                         then s\<lparr>queue := queue s @ batch_commands (True \<and> True) ?acc\<rparr>
                         else s)) ?ss1 =
      map (\<lambda>(cid, sess). (cid, if cid \<in> set ?T then sess\<lparr>queue := []\<rparr> else sess)) ss"
    unfolding ss1 acc by (auto simp: queue_clear_def batch_commands_def)
  have "play_scenes request fs ss =
      (Inr (Status_queued_targets ''ok'' ?acc (length ?T)),
       map (\<lambda>(k, s). (k, if k \<in> set ?T
                         then s\<lparr>queue := queue s @ batch_commands (True \<and> True) ?acc\<rparr>
                         else s)) ?ss1)"
    using intr files loop by (simp add: play_scenes_def truthy_bool_def Let_def)
  then have "play_scenes request fs ss =
      (Inr (Status_queued_targets ''ok'' ?acc (length ?T)),
       map (\<lambda>(cid, sess). (cid, if cid \<in> set ?T then sess\<lparr>queue := []\<rparr> else sess)) ss)"
    by (simp only: store)
  then show ?thesis
    by (simp only: acc)
qed

theorem play_scenes_interrupt_none_known_witness:
  "wf_sessions [(''a'', queue_append (play_scenes_command ''old'' False) (ClientSession_init 0)),
                (''b'', ClientSession_init 1)]
   \<and> load_scenes Scenes_absent = Inr []
   \<and> ''wave'' \<notin> set ([] :: string list) \<and> ''bow'' \<notin> set ([] :: string list)
   \<and> play_scenes \<lparr>scenes = [''wave'', ''bow''],
                    PlayScenesRequest.interrupt = Some True,
                    PlayScenesRequest.client_id = None\<rparr>
         Scenes_absent
         [(''a'', queue_append (play_scenes_command ''old'' False) (ClientSession_init 0)),
          (''b'', ClientSession_init 1)]
       = (Inr (Status_queued_targets ''ok'' [] 2),
          [(''a'', ClientSession_init 0), (''b'', ClientSession_init 1)])"
  using play_scenes_interrupt_none_known
    [of "[(''a'', queue_append (play_scenes_command ''old'' False) (ClientSession_init 0)),
          (''b'', ClientSession_init 1)]"
        "\<lparr>scenes = [''wave'', ''bow''],
          PlayScenesRequest.interrupt = Some True,
          PlayScenesRequest.client_id = None\<rparr>"
        Scenes_absent "[]"]
  by (simp add: wf_sessions_def load_scenes_def target_sessions_def
      queue_append_def ClientSession_init_def)

end
